theory Spec2Isabelle
  imports Complex_Main
begin

section \<open>The GPU monitor of presiongpu.py\<close>

text \<open>
  The script keeps the last 60 seconds of GPU samples in three parallel deques, appends
  every sample to a CSV file and redraws two bar charts at every iteration of its loop.
  Python floats are modelled by \<^typ>\<open>real\<close>: sums, differences and quotients are exact, and a
  comparison of two floats is the comparison of their values. The doubles of the script
  round every sum, difference and quotient, so a property that needs an exact result is
  stated for inputs on which the doubles do not round: integers, or multiples of a power
  of two, of bounded size. The deques are lists, the head of a deque being the head of the
  list. The globals of the script are the fields of one state record, passed in and
  returned.
\<close>

subsection \<open>Configuration\<close>

definition INTERVALO_MUESTREO :: real where
  "INTERVALO_MUESTREO = 1 / 2"

definition VENTANA_SEGUNDOS :: real where
  "VENTANA_SEGUNDOS = 60"

definition RUTA_CSV :: string where
  "RUTA_CSV = ''gpu_log.csv''"

subsection \<open>Errors and state\<close>

datatype error = NVMLError | ZeroDivisionError | IndexError

text \<open>What one redraw hands to the two bar charts (lines 107 to 140).\<close>

record dibujo =
  x_barras :: "real list"
  width_barras :: real
  alturas_proc :: "real list"
  alturas_mem :: "real list"
  colores_proc :: "(real \<times> real \<times> real) list"
  colores_mem :: "(real \<times> real \<times> real) list"

text \<open>
  \<open>archivo\<close> is the content of the CSV file, one list of fields per row; the three
  deques follow; \<open>pantalla\<close> is what the figure shows, nothing before the first redraw.
\<close>

record estado =
  archivo :: "string list list"
  t_muestras :: "real list"
  proc_vals :: "real list"
  mem_vals :: "real list"
  pantalla :: "dibujo option"

text \<open>A raise is the left injection, with the state as the raise leaves it.\<close>

type_synonym resultado = "(error \<times> estado) + estado"

subsection \<open>Buffers\<close>

text \<open>
  The body of \<open>recorta_antiguas\<close>: while the deque of timestamps is not empty and its
  head is below the cut, pop the head of the three deques, in the order of the source.
  \<open>popleft\<close> on an empty deque raises IndexError.
\<close>

function recorta_bucle :: "real \<Rightarrow> estado \<Rightarrow> resultado" where
  "recorta_bucle corte e =
     (case t_muestras e of
        [] \<Rightarrow> Inr e
      | t # ts \<Rightarrow>
          if t < corte then
            (let e1 = e\<lparr>t_muestras := ts\<rparr> in
             case proc_vals e1 of
               [] \<Rightarrow> Inl (IndexError, e1)
             | p # ps \<Rightarrow>
                 (let e2 = e1\<lparr>proc_vals := ps\<rparr> in
                  case mem_vals e2 of
                    [] \<Rightarrow> Inl (IndexError, e2)
                  | m # ms \<Rightarrow> recorta_bucle corte (e2\<lparr>mem_vals := ms\<rparr>)))
          else Inr e)"
  by pat_completeness auto
termination
  by (relation "measure (\<lambda>(corte, e). length (t_muestras e))") auto

declare recorta_bucle.simps [simp del]

definition recorta_antiguas :: "real \<Rightarrow> estado \<Rightarrow> resultado" where
  "recorta_antiguas ahora_epoch e =
     (let corte = ahora_epoch - VENTANA_SEGUNDOS in recorta_bucle corte e)"

text \<open>The three appends of the loop body (lines 102 to 104).\<close>

definition anade_muestra :: "real \<Rightarrow> real \<Rightarrow> real \<Rightarrow> estado \<Rightarrow> estado" where
  "anade_muestra ahora carga_proc carga_mem e =
     e\<lparr>t_muestras := t_muestras e @ [ahora],
       proc_vals := proc_vals e @ [carga_proc],
       mem_vals := mem_vals e @ [carga_mem]\<rparr>"

text \<open>A sequence of buffer operations, stopped by the first raise.\<close>

datatype operacion = Anade real real real | Recorta real

fun aplica :: "operacion \<Rightarrow> estado \<Rightarrow> resultado" where
  "aplica (Anade t p m) e = Inr (anade_muestra t p m e)"
| "aplica (Recorta ahora) e = recorta_antiguas ahora e"

fun aplica_todas :: "operacion list \<Rightarrow> estado \<Rightarrow> resultado" where
  "aplica_todas [] e = Inr e"
| "aplica_todas (op # ops) e =
     (case aplica op e of Inl x \<Rightarrow> Inl x | Inr e' \<Rightarrow> aplica_todas ops e')"

text \<open>
  Sampling at a fixed interval from \<open>t0\<close>, sample \<open>i\<close> carrying the loads \<open>p i\<close> and
  \<open>m i\<close>: the inserts alone, and the inserts each followed by the eviction at the time of
  the sample, as the loop does.
\<close>

definition inserciones ::
    "real \<Rightarrow> real \<Rightarrow> (nat \<Rightarrow> real) \<Rightarrow> (nat \<Rightarrow> real) \<Rightarrow> nat \<Rightarrow> operacion list" where
  "inserciones t0 delta p m n =
     map (\<lambda>i. Anade (t0 + real i * delta) (p i) (m i)) [0 ..< n]"

definition muestreo_regular ::
    "real \<Rightarrow> real \<Rightarrow> (nat \<Rightarrow> real) \<Rightarrow> (nat \<Rightarrow> real) \<Rightarrow> nat \<Rightarrow> operacion list" where
  "muestreo_regular t0 delta p m n =
     concat (map (\<lambda>i. [Anade (t0 + real i * delta) (p i) (m i),
                          Recorta (t0 + real i * delta)]) [0 ..< n])"

definition sin_carga :: "nat \<Rightarrow> real" where
  "sin_carga i = 0"

text \<open>The lockstep of the three deques, and the samples they hold together.\<close>

definition parejos :: "estado \<Rightarrow> bool" where
  "parejos e \<longleftrightarrow>
     length (proc_vals e) = length (t_muestras e) \<and>
     length (mem_vals e) = length (t_muestras e)"

definition muestras :: "estado \<Rightarrow> (real \<times> real \<times> real) list" where
  "muestras e = zip (t_muestras e) (zip (proc_vals e) (mem_vals e))"

text \<open>How many samples at the head of the buffer are older than the cut.\<close>

definition caducadas :: "real \<Rightarrow> estado \<Rightarrow> nat" where
  "caducadas corte e = length (takeWhile (\<lambda>t. t < corte) (t_muestras e))"

definition vacio :: estado where
  "vacio = \<lparr>archivo = [], t_muestras = [], proc_vals = [], mem_vals = [], pantalla = None\<rparr>"

subsection \<open>Render geometry and colour\<close>

text \<open>
  Lines 107 to 118: the position of every bar relative to the left edge of the window,
  and the width of the bars.
\<close>

definition eje_x :: "real \<Rightarrow> estado \<Rightarrow> real list" where
  "eje_x ahora e =
     (if t_muestras e \<noteq> [] then map (\<lambda>t. t - (ahora - VENTANA_SEGUNDOS)) (t_muestras e)
      else [])"

definition width :: "real list \<Rightarrow> real" where
  "width x =
     (if length x \<ge> 2 then
        (let dx = sum_list (map (\<lambda>i. x ! (i + 1) - x ! i) [0 ..< length x - 1])
                    / real (length x - 1)
         in dx)
      else INTERVALO_MUESTREO)"

definition color_por_porcentaje :: "real \<Rightarrow> real \<times> real \<times> real" where
  "color_por_porcentaje pct = (let t = max 0 (min 1 (pct / 100)) in (t, 1 - t, 0))"

definition redibuja :: "real \<Rightarrow> estado \<Rightarrow> estado" where
  "redibuja ahora e =
     (let x = eje_x ahora e in
      e\<lparr>pantalla := Some \<lparr>x_barras = x, width_barras = width x,
                              alturas_proc = proc_vals e, alturas_mem = mem_vals e,
                              colores_proc = map color_por_porcentaje (proc_vals e),
                              colores_mem = map color_por_porcentaje (mem_vals e)\<rparr>\<rparr>)"

text \<open>
  The words of the specification for the width: the mean of the differences of
  consecutive positions.
\<close>

definition deltas_consecutivos :: "real list \<Rightarrow> real list" where
  "deltas_consecutivos x = map2 (\<lambda>a b. b - a) x (tl x)"

definition media :: "real list \<Rightarrow> real" where
  "media ds = sum_list ds / real (length ds)"

subsection \<open>The CSV file\<close>

text \<open>
  Python's \<open>format(v, ".<d>f")\<close>: the value rounded to \<open>d\<close> decimals, ties to even, written
  with a sign when negative, the integer part, and a point followed by exactly \<open>d\<close> digits
  (no point when \<open>d\<close> is 0).
\<close>

definition digito :: "nat \<Rightarrow> char" where
  "digito n = ''0123456789'' ! n"

fun decimal :: "nat \<Rightarrow> string" where
  "decimal n = (if n < 10 then [digito n] else decimal (n div 10) @ [digito (n mod 10)])"

declare decimal.simps [simp del]

definition rellena :: "nat \<Rightarrow> string \<Rightarrow> string" where
  "rellena k s = replicate (k - length s) (CHR ''0'') @ s"

definition redondeo_par :: "real \<Rightarrow> nat" where
  "redondeo_par y =
     (let f = nat \<lfloor>y\<rfloor>; r = y - real f in
      if r < 1 / 2 then f else if 1 / 2 < r then f + 1 else if even f then f else f + 1)"

definition formato_f :: "nat \<Rightarrow> real \<Rightarrow> string" where
  "formato_f d v =
     (let n = redondeo_par (\<bar>v\<bar> * 10 ^ d) in
      (if v < 0 then ''-'' else []) @ decimal (n div 10 ^ d) @
      (if d = 0 then [] else ''.'' @ rellena d (decimal (n mod 10 ^ d))))"

text \<open>
  A \<open>datetime\<close> object, and its \<open>isoformat(sep=" ", timespec="seconds")\<close>: the
  microseconds are left out.
\<close>

record datetime =
  year :: nat
  month :: nat
  day :: nat
  hour :: nat
  minute :: nat
  second :: nat
  microsecond :: nat

definition datetime_valido :: "datetime \<Rightarrow> bool" where
  "datetime_valido f \<longleftrightarrow>
     1 \<le> year f \<and> year f \<le> 9999 \<and> 1 \<le> month f \<and> month f \<le> 12 \<and>
     1 \<le> day f \<and> day f \<le> 31 \<and> hour f < 24 \<and> minute f < 60 \<and> second f < 60 \<and>
     microsecond f < 1000000"

definition isoformat_seconds :: "datetime \<Rightarrow> string" where
  "isoformat_seconds f =
     rellena 4 (decimal (year f)) @ ''-'' @ rellena 2 (decimal (month f)) @ ''-'' @
     rellena 2 (decimal (day f)) @ '' '' @ rellena 2 (decimal (hour f)) @ '':'' @
     rellena 2 (decimal (minute f)) @ '':'' @ rellena 2 (decimal (second f))"

definition cabecera :: "string list" where
  "cabecera = [''epoch'', ''fecha_completa'', ''carga_procesador'', ''carga_memoria'']"

text \<open>
  Lines 33 to 38. The argument is the file before the script starts: \<open>None\<close> when
  the path does not exist. Opening in append mode creates a missing file and keeps the
  rows of an existing one.
\<close>

definition abre_csv :: "string list list option \<Rightarrow> string list list" where
  "abre_csv previo =
     (let nuevo = (previo = None);
          f_csv = (case previo of None \<Rightarrow> [] | Some filas \<Rightarrow> filas)
      in if nuevo then f_csv @ [cabecera] else f_csv)"

definition arranque :: "string list list option \<Rightarrow> estado" where
  "arranque previo =
     \<lparr>archivo = abre_csv previo, t_muestras = [], proc_vals = [], mem_vals = [],
      pantalla = None\<rparr>"

text \<open>
  \<open>csv.writer\<close> writes a row as its fields joined by commas; a field with a comma, a
  double quote or a line break is put in double quotes, its double quotes doubled.
\<close>

definition campo_csv :: "string \<Rightarrow> string" where
  "campo_csv c =
     (if list_ex (\<lambda>k. k \<in> set [CHR '','', CHR 0x22, CHR 0x0D, CHR 0x0A]) c
      then [CHR 0x22] @ concat (map (\<lambda>k. if k = CHR 0x22 then [k, k] else [k]) c) @ [CHR 0x22]
      else c)"

fun une_campos :: "string list \<Rightarrow> string" where
  "une_campos [] = []"
| "une_campos [c] = c"
| "une_campos (c # cs) = c @ '','' @ une_campos cs"

definition linea_csv :: "string list \<Rightarrow> string" where
  "linea_csv fila = une_campos (map campo_csv fila)"

text \<open>The row of one sample (lines 93 to 98).\<close>

definition fila_csv :: "real \<Rightarrow> datetime \<Rightarrow> real \<Rightarrow> real \<Rightarrow> string list" where
  "fila_csv ahora fecha carga_proc carga_mem =
     [formato_f 3 ahora, isoformat_seconds fecha, formato_f 2 carga_proc,
      formato_f 2 carga_mem]"

text \<open>
  What a reader of the file checks: a number with exactly \<open>d\<close> decimals, and a text that
  fits a pattern in which \<open>d\<close> stands for any digit.
\<close>

definition es_digito :: "char \<Rightarrow> bool" where
  "es_digito c \<longleftrightarrow> c \<in> set ''0123456789''"

definition con_decimales :: "nat \<Rightarrow> string \<Rightarrow> bool" where
  "con_decimales d s =
     (let u = (if s \<noteq> [] \<and> hd s = CHR ''-'' then tl s else s);
          entero = takeWhile es_digito u;
          resto = drop (length entero) u
      in entero \<noteq> [] \<and> resto \<noteq> [] \<and> hd resto = CHR ''.'' \<and>
         length (tl resto) = d \<and> list_all es_digito (tl resto))"

fun encaja :: "string \<Rightarrow> string \<Rightarrow> bool" where
  "encaja [] [] = True"
| "encaja (p # ps) (c # cs) = ((if p = CHR ''d'' then es_digito c else c = p) \<and> encaja ps cs)"
| "encaja _ _ = False"

subsection \<open>The loop\<close>

text \<open>
  What the outside world answers during one iteration: the clock, the two NVML queries
  (the \<open>gpu\<close> field of the utilisation, and \<open>used\<close> and \<open>total\<close> of the memory
  information, unsigned integers), and the local date of the clock reading.
\<close>

record tic =
  reloj :: real
  utilizacion :: "error + nat"
  memoria :: "error + nat \<times> nat"
  fecha :: datetime

text \<open>Lines 87 to 90: the readings, which come before any write.\<close>

definition lecturas :: "tic \<Rightarrow> error + real \<times> real" where
  "lecturas k =
     (case utilizacion k of
        Inl err \<Rightarrow> Inl err
      | Inr gpu \<Rightarrow>
          (let carga_proc = real gpu in
           case memoria k of
             Inl err \<Rightarrow> Inl err
           | Inr (mem_used, mem_total) \<Rightarrow>
               if mem_total = 0 then Inl ZeroDivisionError
               else Inr (carga_proc, real mem_used / real mem_total * 100)))"

text \<open>One iteration of the loop body, lines 84 to 144.\<close>

definition iteracion :: "tic \<Rightarrow> estado \<Rightarrow> resultado" where
  "iteracion k e =
     (let ahora = reloj k in
      case lecturas k of
        Inl err \<Rightarrow> Inl (err, e)
      | Inr (carga_proc, carga_mem) \<Rightarrow>
          (let e1 = e\<lparr>archivo := archivo e @ [fila_csv ahora (fecha k) carga_proc carga_mem]\<rparr>;
               e2 = anade_muestra ahora carga_proc carga_mem e1
           in case recorta_antiguas ahora e2 of
                Inl x \<Rightarrow> Inl x
              | Inr e3 \<Rightarrow> Inr (redibuja ahora e3)))"

text \<open>
  The loop over what happens to the process: an iteration, or the interrupt of the
  operator, here arriving between two iterations. \<open>Sigue\<close> is the loop still running
  when the events end; \<open>Detenido\<close> is the handler of KeyboardInterrupt; every other
  exception leaves the loop and the script (\<open>Fatal\<close>).
\<close>

datatype evento = Tic tic | Interrupcion

datatype salida = Sigue estado | Detenido estado | Fatal error estado

fun bucle :: "evento list \<Rightarrow> estado \<Rightarrow> salida" where
  "bucle [] e = Sigue e"
| "bucle (Interrupcion # evs) e = Detenido e"
| "bucle (Tic k # evs) e =
     (case iteracion k e of
        Inl (err, e') \<Rightarrow> Fatal err e'
      | Inr e' \<Rightarrow> bucle evs e')"

text \<open>The row that an iteration with successful readings appends to the file.\<close>

definition fila_de :: "tic \<Rightarrow> string list" where
  "fila_de k =
     (case lecturas k of
        Inl err \<Rightarrow> []
      | Inr (carga_proc, carga_mem) \<Rightarrow> fila_csv (reloj k) (fecha k) carga_proc carga_mem)"

text \<open>The shape of a date at second precision, \<open>d\<close> standing for a digit.\<close>

definition forma_fecha :: string where
  "forma_fecha = ''dddd-dd-dd dd:dd:dd''"

text \<open>
  An iteration as in the example row of the documentation, and the same iteration with
  a failing query of the utilisation.
\<close>

definition fecha_ejemplo :: datetime where
  "fecha_ejemplo =
     \<lparr>year = 2023, month = 11, day = 14, hour = 12, minute = 0, second = 0,
      microsecond = 123000\<rparr>"

definition tic_ejemplo :: tic where
  "tic_ejemplo =
     \<lparr>reloj = 1700000000123 / 1000, utilizacion = Inr 42, memoria = Inr (147, 200),
      fecha = fecha_ejemplo\<rparr>"

definition tic_fallido :: tic where
  "tic_fallido = tic_ejemplo\<lparr>utilizacion := Inl NVMLError\<rparr>"

section \<open>Properties of the buffer\<close>

subsection \<open>Eviction\<close>

lemma recorta_bucle_parejos:
  "parejos e \<Longrightarrow>
   recorta_bucle corte e =
     Inr (e\<lparr>t_muestras := drop (length (takeWhile (\<lambda>t. t < corte) (t_muestras e))) (t_muestras e),
            proc_vals := drop (length (takeWhile (\<lambda>t. t < corte) (t_muestras e))) (proc_vals e),
            mem_vals := drop (length (takeWhile (\<lambda>t. t < corte) (t_muestras e))) (mem_vals e)\<rparr>)"
proof (induction corte e rule: recorta_bucle.induct)
  case (1 corte e)
  show ?case
  proof (cases "t_muestras e")
    case Nil
    then show ?thesis by (subst recorta_bucle.simps) simp
  next
    case (Cons t ts)
    note ts = Cons
    show ?thesis
    proof (cases "t < corte")
      case False
      with ts show ?thesis by (subst recorta_bucle.simps) simp
    next
      case True
      from "1.prems" ts obtain p ps m ms where
        ps: "proc_vals e = p # ps" and ms: "mem_vals e = m # ms"
        and l: "length ps = length ts" "length ms = length ts"
        by (auto simp: parejos_def length_Suc_conv)
      let ?e' = "e\<lparr>t_muestras := ts, proc_vals := ps, mem_vals := ms\<rparr>"
      have par: "parejos ?e'" using l by (simp add: parejos_def)
      have IH: "recorta_bucle corte ?e' = Inr (?e'\<lparr>t_muestras := drop (length (takeWhile (\<lambda>t. t < corte) (t_muestras ?e'))) (t_muestras ?e'),
            proc_vals := drop (length (takeWhile (\<lambda>t. t < corte) (t_muestras ?e'))) (proc_vals ?e'),
            mem_vals := drop (length (takeWhile (\<lambda>t. t < corte) (t_muestras ?e'))) (mem_vals ?e')\<rparr>)"
        using "1.IH"[OF ts True refl _ refl, of p ps m ms] ps ms par by simp
      have "recorta_bucle corte e = recorta_bucle corte ?e'"
        using ts True ps ms by (subst recorta_bucle.simps) simp
      with IH ts True ps ms show ?thesis by simp
    qed
  qed
qed

lemma dropWhile_sorted_ge:
  "sorted (ts :: real list) \<Longrightarrow> t \<in> set (dropWhile (\<lambda>t. t < c) ts) \<Longrightarrow> c \<le> t"
  by (induction ts) (auto split: if_splits)

lemma filter_zip_sorted:
  "sorted (ts :: real list) \<Longrightarrow>
   filter (\<lambda>(t, y). c \<le> t) (zip ts ys) = drop (length (takeWhile (\<lambda>t. t < c) ts)) (zip ts ys)"
proof (induction ts arbitrary: ys)
  case Nil
  then show ?case by simp
next
  case (Cons t ts)
  show ?case
  proof (cases ys)
    case Nil
    then show ?thesis by simp
  next
    case (Cons y ys')
    show ?thesis
    proof (cases "t < c")
      case True
      with Cons.prems Cons.IH[of ys'] Cons show ?thesis by simp
    next
      case False
      have "\<forall>(t', y') \<in> set (zip ts ys'). c \<le> t'"
        using Cons.prems False by (auto dest!: set_zip_leftD)
      then have "filter (\<lambda>(t, y). c \<le> t) (zip ts ys') = zip ts ys'"
        by (auto intro!: filter_True)
      with False Cons show ?thesis by simp
    qed
  qed
qed

lemma recorta_antiguas_parejos:
  assumes "parejos e"
  shows "recorta_antiguas ahora e =
     Inr (e\<lparr>t_muestras := drop (caducadas (ahora - VENTANA_SEGUNDOS) e) (t_muestras e),
            proc_vals := drop (caducadas (ahora - VENTANA_SEGUNDOS) e) (proc_vals e),
            mem_vals := drop (caducadas (ahora - VENTANA_SEGUNDOS) e) (mem_vals e)\<rparr>)"
  using recorta_bucle_parejos [OF assms, of "ahora - VENTANA_SEGUNDOS"]
  by (simp add: recorta_antiguas_def caducadas_def)

text \<open>
  C1. Window invariant: for every time \<open>ahora\<close> and every state whose three deques are
  in lockstep and whose timestamps are non-decreasing, \<open>recorta_antiguas ahora\<close> returns,
  and every timestamp left in the buffer, and so every sample left, is at least
  \<open>ahora - VENTANA_SEGUNDOS\<close>.
\<close>

theorem ventana_tras_recorte:
  assumes "parejos e" and "sorted (t_muestras e)"
  shows "\<exists>e'. recorta_antiguas ahora e = Inr e' \<and>
           (\<forall>t \<in> set (t_muestras e'). t \<ge> ahora - VENTANA_SEGUNDOS) \<and>
           (\<forall>(t, p, m) \<in> set (muestras e'). t \<ge> ahora - VENTANA_SEGUNDOS)"
proof -
  let ?c = "ahora - VENTANA_SEGUNDOS"
  let ?k = "caducadas ?c e"
  let ?e' = "e\<lparr>t_muestras := drop ?k (t_muestras e), proc_vals := drop ?k (proc_vals e),
               mem_vals := drop ?k (mem_vals e)\<rparr>"
  have r: "recorta_antiguas ahora e = Inr ?e'"
    by (rule recorta_antiguas_parejos [OF assms(1)])
  have d: "t_muestras ?e' = dropWhile (\<lambda>t. t < ?c) (t_muestras e)"
    by (simp add: caducadas_def dropWhile_eq_drop)
  have a: "\<forall>t \<in> set (t_muestras ?e'). ?c \<le> t"
    unfolding d using dropWhile_sorted_ge [OF assms(2)] by blast
  have b: "\<forall>(t, p, m) \<in> set (muestras ?e'). ?c \<le> t"
  proof (clarify)
    fix t p m assume "(t, p, m) \<in> set (muestras ?e')"
    then have "t \<in> set (t_muestras ?e')"
      unfolding muestras_def by (rule set_zip_leftD)
    with a show "?c \<le> t" by blast
  qed
  from r a b show ?thesis by blast
qed

theorem ventana_tras_recorte_witness:
  "\<exists>e'. recorta_antiguas 100 (vacio\<lparr>t_muestras := [10, 50, 90], proc_vals := [1, 2, 3], mem_vals := [4, 5, 6]\<rparr>) = Inr e' \<and>
        t_muestras e' = [50, 90] \<and> list_all (\<lambda>t. t \<ge> 100 - VENTANA_SEGUNDOS) (t_muestras e')"
proof -
  let ?e = "vacio\<lparr>t_muestras := [10, 50, 90], proc_vals := [1, 2, 3], mem_vals := [4, 5, 6]\<rparr>"
  have p: "parejos ?e" by (simp add: parejos_def vacio_def)
  have s: "sorted (t_muestras ?e)" by (simp add: vacio_def)
  from ventana_tras_recorte [OF p s, of 100] obtain e' where
    r: "recorta_antiguas 100 ?e = Inr e'" and
    w: "\<forall>t \<in> set (t_muestras e'). t \<ge> 100 - VENTANA_SEGUNDOS" by blast
  have "recorta_antiguas 100 ?e = Inr (?e\<lparr>t_muestras := [50, 90], proc_vals := [2, 3], mem_vals := [5, 6]\<rparr>)"
    by (simp add: recorta_antiguas_def recorta_bucle.simps VENTANA_SEGUNDOS_def vacio_def)
  with r have "t_muestras e' = [50, 90]" by auto
  with r w show ?thesis by (auto simp: list_all_iff)
qed

lemma parejos_anade: "parejos e \<Longrightarrow> parejos (anade_muestra t p m e)"
  by (simp add: parejos_def anade_muestra_def)

lemma parejos_drop:
  "parejos e \<Longrightarrow>
   parejos (e\<lparr>t_muestras := drop k (t_muestras e), proc_vals := drop k (proc_vals e),
              mem_vals := drop k (mem_vals e)\<rparr>)"
  by (simp add: parejos_def)

lemma muestras_anade:
  "parejos e \<Longrightarrow> muestras (anade_muestra t p m e) = muestras e @ [(t, p, m)]"
  by (simp add: parejos_def anade_muestra_def muestras_def)

lemma muestras_drop:
  "muestras (e\<lparr>t_muestras := drop k (t_muestras e), proc_vals := drop k (proc_vals e),
              mem_vals := drop k (mem_vals e)\<rparr>) = drop k (muestras e)"
  by (simp add: muestras_def drop_zip)

lemma muestras_filter:
  assumes "sorted (t_muestras e)"
  shows "filter (\<lambda>(t, p, m). c \<le> t) (muestras e) = drop (caducadas c e) (muestras e)"
proof -
  have "(\<lambda>(t, p, m). c \<le> t) = (\<lambda>(t, y :: real \<times> real). c \<le> t)"
    by (auto simp: fun_eq_iff)
  then show ?thesis
    unfolding muestras_def caducadas_def using filter_zip_sorted [OF assms] by simp
qed

lemma filter_sorted_dropWhile:
  "sorted (ts :: real list) \<Longrightarrow> filter (\<lambda>t. c \<le> t) ts = dropWhile (\<lambda>t. t < c) ts"
proof (induction ts)
  case Nil
  then show ?case by simp
next
  case (Cons t ts)
  show ?case
  proof (cases "t < c")
    case True
    with Cons show ?thesis by simp
  next
    case False
    with Cons.prems have "\<forall>u \<in> set ts. c \<le> u" by auto
    then have "filter (\<lambda>t. c \<le> t) ts = ts" by (simp add: filter_True)
    with False show ?thesis by simp
  qed
qed

text \<open>
  C2. Eviction exactness: on a buffer in lockstep with non-decreasing timestamps,
  \<open>recorta_antiguas ahora\<close> keeps exactly the samples whose timestamp is at least
  \<open>ahora - VENTANA_SEGUNDOS\<close> (a sample exactly at the cut stays), in their order, removes
  the others, and leaves the file alone. Inserting a sample at 0 and one at 65 and
  evicting at 65 leaves only the sample of 65.
\<close>

theorem recorte_exacto:
  "(\<forall>e ahora. parejos e \<and> sorted (t_muestras e) \<longrightarrow>
      (\<exists>e'. recorta_antiguas ahora e = Inr e' \<and> parejos e' \<and> archivo e' = archivo e \<and>
         muestras e' = filter (\<lambda>(t, p, m). ahora - VENTANA_SEGUNDOS \<le> t) (muestras e) \<and>
         t_muestras e' = filter (\<lambda>t. ahora - VENTANA_SEGUNDOS \<le> t) (t_muestras e))) \<and>
   (\<forall>p0 m0 p1 m1. \<exists>e'.
      aplica_todas [Anade 0 p0 m0, Anade 65 p1 m1, Recorta 65] vacio = Inr e' \<and>
      t_muestras e' = [65] \<and> proc_vals e' = [p1] \<and> mem_vals e' = [m1])"
proof (intro conjI allI impI)
  fix e ahora
  assume h: "parejos e \<and> sorted (t_muestras e)"
  let ?c = "ahora - VENTANA_SEGUNDOS"
  let ?k = "caducadas ?c e"
  let ?e' = "e\<lparr>t_muestras := drop ?k (t_muestras e), proc_vals := drop ?k (proc_vals e),
               mem_vals := drop ?k (mem_vals e)\<rparr>"
  have r: "recorta_antiguas ahora e = Inr ?e'"
    using h by (simp add: recorta_antiguas_parejos)
  have p: "parejos ?e'" using h by (simp add: parejos_drop)
  have m: "muestras ?e' = filter (\<lambda>(t, p, m). ?c \<le> t) (muestras e)"
    using h by (simp add: muestras_drop muestras_filter)
  have "filter (\<lambda>t. ?c \<le> t) (t_muestras e) = dropWhile (\<lambda>t. t < ?c) (t_muestras e)"
    using h by (simp add: filter_sorted_dropWhile)
  then have t: "t_muestras ?e' = filter (\<lambda>t. ?c \<le> t) (t_muestras e)"
    by (simp add: caducadas_def dropWhile_eq_drop)
  show "\<exists>e'. recorta_antiguas ahora e = Inr e' \<and> parejos e' \<and> archivo e' = archivo e \<and>
         muestras e' = filter (\<lambda>(t, p, m). ?c \<le> t) (muestras e) \<and>
         t_muestras e' = filter (\<lambda>t. ?c \<le> t) (t_muestras e)"
    using r p m t by (intro exI[of _ ?e']) simp
next
  fix p0 m0 p1 m1 :: real
  show "\<exists>e'. aplica_todas [Anade 0 p0 m0, Anade 65 p1 m1, Recorta 65] vacio = Inr e' \<and>
      t_muestras e' = [65] \<and> proc_vals e' = [p1] \<and> mem_vals e' = [m1]"
    by (simp add: anade_muestra_def recorta_antiguas_def recorta_bucle.simps
         VENTANA_SEGUNDOS_def vacio_def)
qed

theorem recorte_exacto_witness:
  "\<exists>e'. recorta_antiguas 100
           (vacio\<lparr>t_muestras := [10, 40, 90], proc_vals := [1, 2, 3], mem_vals := [4, 5, 6]\<rparr>) = Inr e' \<and>
        muestras e' = [(40, 2, 5), (90, 3, 6)] \<and> t_muestras e' = [40, 90]"
proof -
  let ?e = "vacio\<lparr>t_muestras := [10, 40, 90], proc_vals := [1, 2, 3], mem_vals := [4, 5, 6]\<rparr>"
  have h: "parejos ?e \<and> sorted (t_muestras ?e)" by (simp add: parejos_def vacio_def)
  from recorte_exacto h obtain e' where
    "recorta_antiguas 100 ?e = Inr e'"
    "muestras e' = filter (\<lambda>(t, p, m). 100 - VENTANA_SEGUNDOS \<le> t) (muestras ?e)"
    "t_muestras e' = filter (\<lambda>t. 100 - VENTANA_SEGUNDOS \<le> t) (t_muestras ?e)"
    by blast
  then show ?thesis
    by (simp add: muestras_def VENTANA_SEGUNDOS_def vacio_def)
qed

lemma aplica_parejos:
  assumes "parejos e"
  shows "\<exists>e'. aplica op e = Inr e' \<and> parejos e'"
proof (cases op)
  case (Anade t p m)
  with assms show ?thesis by (simp add: parejos_anade)
next
  case (Recorta ahora)
  with assms show ?thesis by (simp add: recorta_antiguas_parejos parejos_drop)
qed

lemma aplica_todas_parejos:
  "parejos e \<Longrightarrow> \<exists>e'. aplica_todas ops e = Inr e' \<and> parejos e'"
proof (induction ops arbitrary: e)
  case Nil
  then show ?case by simp
next
  case (Cons op ops)
  from aplica_parejos [OF Cons.prems, of op] obtain e1 where
    a: "aplica op e = Inr e1" and p: "parejos e1" by blast
  from Cons.IH [OF p] a show ?case by simp
qed

text \<open>
  C10. Lockstep of the parallel deques: from deques of equal lengths, an insert appends
  one element to each of the three, an eviction pops the same number of elements from
  the head of each of the three and does not raise, and every sequence of inserts and
  evictions returns with the three lengths equal again.
\<close>

theorem deques_parejos:
  assumes "parejos e"
  shows "(t_muestras (anade_muestra t p m e) = t_muestras e @ [t] \<and>
          proc_vals (anade_muestra t p m e) = proc_vals e @ [p] \<and>
          mem_vals (anade_muestra t p m e) = mem_vals e @ [m] \<and>
          muestras (anade_muestra t p m e) = muestras e @ [(t, p, m)] \<and>
          parejos (anade_muestra t p m e)) \<and>
         (\<exists>e' k. recorta_antiguas ahora e = Inr e' \<and>
            t_muestras e' = drop k (t_muestras e) \<and>
            proc_vals e' = drop k (proc_vals e) \<and>
            mem_vals e' = drop k (mem_vals e) \<and>
            muestras e' = drop k (muestras e) \<and> parejos e') \<and>
         (\<exists>e'. aplica_todas ops e = Inr e' \<and> parejos e')"
proof (intro conjI)
  let ?k = "caducadas (ahora - VENTANA_SEGUNDOS) e"
  let ?e' = "e\<lparr>t_muestras := drop ?k (t_muestras e), proc_vals := drop ?k (proc_vals e),
               mem_vals := drop ?k (mem_vals e)\<rparr>"
  have "recorta_antiguas ahora e = Inr ?e'"
    using assms by (rule recorta_antiguas_parejos)
  moreover have "parejos ?e'" using assms by (rule parejos_drop)
  moreover have "muestras ?e' = drop ?k (muestras e)" by (rule muestras_drop)
  ultimately show "\<exists>e' k. recorta_antiguas ahora e = Inr e' \<and>
            t_muestras e' = drop k (t_muestras e) \<and>
            proc_vals e' = drop k (proc_vals e) \<and>
            mem_vals e' = drop k (mem_vals e) \<and>
            muestras e' = drop k (muestras e) \<and> parejos e'"
    by (intro exI[of _ ?e'] exI[of _ ?k]) simp
qed (use assms in \<open>simp_all add: muestras_anade parejos_anade aplica_todas_parejos\<close>,
     simp_all add: anade_muestra_def)

theorem deques_parejos_witness:
  "\<exists>e'. aplica_todas [Anade 0 10 20, Anade 30 11 21, Anade 65 12 22, Recorta 65, Anade 66 13 23] vacio = Inr e' \<and>
        parejos e' \<and> t_muestras e' = [30, 65, 66] \<and> proc_vals e' = [11, 12, 13] \<and> mem_vals e' = [21, 22, 23]"
proof -
  have p: "parejos vacio" by (simp add: parejos_def vacio_def)
  from deques_parejos [OF p, of _ _ _ _ "[Anade 0 10 20, Anade 30 11 21, Anade 65 12 22, Recorta 65, Anade 66 13 23]"]
  obtain e' where
    a: "aplica_todas [Anade 0 10 20, Anade 30 11 21, Anade 65 12 22, Recorta 65, Anade 66 13 23] vacio = Inr e'"
    and q: "parejos e'" by blast
  have "aplica_todas [Anade 0 10 20, Anade 30 11 21, Anade 65 12 22, Recorta 65, Anade 66 13 23] vacio =
     Inr (vacio\<lparr>t_muestras := [30, 65, 66], proc_vals := [11, 12, 13], mem_vals := [21, 22, 23]\<rparr>)"
    by (simp add: anade_muestra_def recorta_antiguas_def recorta_bucle.simps
         VENTANA_SEGUNDOS_def vacio_def)
  with a q show ?thesis by auto
qed

subsection \<open>Render geometry\<close>

lemma eje_x_map:
  "eje_x ahora e = map (\<lambda>t. t - (ahora - VENTANA_SEGUNDOS)) (t_muestras e)"
  by (simp add: eje_x_def)

text \<open>
  C3. Positions of the bars: for every state and every \<open>ahora\<close> there is one position per
  timestamp, and position \<open>i\<close> is timestamp \<open>i\<close> minus \<open>ahora - VENTANA_SEGUNDOS\<close>. When
  the state is what \<open>recorta_antiguas ahora\<close> returned on a buffer in lockstep with
  non-decreasing timestamps, and no timestamp is after \<open>ahora\<close>, every position lies
  between 0 and \<open>VENTANA_SEGUNDOS\<close>. The timestamps have to be non-decreasing: the loop
  stops evicting at the first timestamp inside the window.
\<close>

theorem posiciones_x:
  "length (eje_x ahora e) = length (t_muestras e) \<and>
   (\<forall>i < length (t_muestras e).
      eje_x ahora e ! i = t_muestras e ! i - (ahora - VENTANA_SEGUNDOS)) \<and>
   ((\<exists>e0. parejos e0 \<and> sorted (t_muestras e0) \<and> recorta_antiguas ahora e0 = Inr e) \<and>
    (\<forall>t \<in> set (t_muestras e). t \<le> ahora) \<longrightarrow>
      (\<forall>x \<in> set (eje_x ahora e). 0 \<le> x \<and> x \<le> VENTANA_SEGUNDOS))"
proof (intro conjI allI impI)
  show "length (eje_x ahora e) = length (t_muestras e)"
    by (simp add: eje_x_map)
next
  fix i assume "i < length (t_muestras e)"
  then show "eje_x ahora e ! i = t_muestras e ! i - (ahora - VENTANA_SEGUNDOS)"
    by (simp add: eje_x_map)
next
  assume h: "(\<exists>e0. parejos e0 \<and> sorted (t_muestras e0) \<and> recorta_antiguas ahora e0 = Inr e) \<and>
    (\<forall>t \<in> set (t_muestras e). t \<le> ahora)"
  then obtain e0 where p: "parejos e0" and s: "sorted (t_muestras e0)"
    and r: "recorta_antiguas ahora e0 = Inr e" by blast
  have "t_muestras e = dropWhile (\<lambda>t. t < ahora - VENTANA_SEGUNDOS) (t_muestras e0)"
    using r recorta_antiguas_parejos [OF p, of ahora]
    by (auto simp: caducadas_def dropWhile_eq_drop)
  then have lo: "\<forall>t \<in> set (t_muestras e). ahora - VENTANA_SEGUNDOS \<le> t"
    using dropWhile_sorted_ge [OF s] by auto
  show "\<forall>x \<in> set (eje_x ahora e). 0 \<le> x \<and> x \<le> VENTANA_SEGUNDOS"
  proof
    fix x assume "x \<in> set (eje_x ahora e)"
    then obtain t where t: "t \<in> set (t_muestras e)" and x: "x = t - (ahora - VENTANA_SEGUNDOS)"
      by (auto simp: eje_x_map)
    from t lo h have "ahora - VENTANA_SEGUNDOS \<le> t" "t \<le> ahora" by auto
    with x show "0 \<le> x \<and> x \<le> VENTANA_SEGUNDOS" by simp
  qed
qed

theorem posiciones_x_witness:
  "recorta_antiguas 100 (vacio\<lparr>t_muestras := [10, 40, 100], proc_vals := [1, 2, 3], mem_vals := [4, 5, 6]\<rparr>)
     = Inr (vacio\<lparr>t_muestras := [40, 100], proc_vals := [2, 3], mem_vals := [5, 6]\<rparr>) \<and>
   eje_x 100 (vacio\<lparr>t_muestras := [40, 100], proc_vals := [2, 3], mem_vals := [5, 6]\<rparr>) = [0, 60] \<and>
   list_all (\<lambda>x. 0 \<le> x \<and> x \<le> VENTANA_SEGUNDOS)
     (eje_x 100 (vacio\<lparr>t_muestras := [40, 100], proc_vals := [2, 3], mem_vals := [5, 6]\<rparr>))"
proof -
  let ?a = "vacio\<lparr>t_muestras := [10, 40, 100], proc_vals := [1, 2, 3], mem_vals := [4, 5, 6]\<rparr>"
  let ?e = "vacio\<lparr>t_muestras := [40, 100], proc_vals := [2, 3], mem_vals := [5, 6]\<rparr>"
  have r: "recorta_antiguas 100 ?a = Inr ?e"
    by (simp add: recorta_antiguas_def recorta_bucle.simps VENTANA_SEGUNDOS_def vacio_def)
  have p: "parejos ?a \<and> sorted (t_muestras ?a)" by (simp add: parejos_def vacio_def)
  have le: "\<forall>t \<in> set (t_muestras ?e). t \<le> 100" by (simp add: vacio_def)
  have x: "eje_x 100 ?e = [0, 60]" by (simp add: eje_x_def VENTANA_SEGUNDOS_def vacio_def)
  from posiciones_x [of 100 ?e] p r le
  have "\<forall>x \<in> set (eje_x 100 ?e). 0 \<le> x \<and> x \<le> VENTANA_SEGUNDOS" by blast
  then have "list_all (\<lambda>x. 0 \<le> x \<and> x \<le> VENTANA_SEGUNDOS) (eje_x 100 ?e)"
    unfolding list_all_iff .
  with r x show ?thesis by blast
qed

text \<open>
  C3 without ordered timestamps fails. The clock reads 100, then 50 after a step back,
  then 120: every eviction stops at the head 100, the sample of 50 stays, and at 120,
  after the eviction and with no timestamp after 120, its position is
  \<open>50 - (120 - 60) = -10\<close>, left of the window.
\<close>

theorem posiciones_x_counterexample:
  "aplica_todas [Anade 100 0 0, Recorta 100, Anade 50 0 0, Recorta 50,
                 Anade 120 0 0, Recorta 120] vacio =
     Inr (vacio\<lparr>t_muestras := [100, 50, 120], proc_vals := [0, 0, 0],
                 mem_vals := [0, 0, 0]\<rparr>) \<and>
   recorta_antiguas 120
     (vacio\<lparr>t_muestras := [100, 50, 120], proc_vals := [0, 0, 0], mem_vals := [0, 0, 0]\<rparr>) =
     Inr (vacio\<lparr>t_muestras := [100, 50, 120], proc_vals := [0, 0, 0],
                 mem_vals := [0, 0, 0]\<rparr>) \<and>
   Max (set (t_muestras (vacio\<lparr>t_muestras := [100, 50, 120], proc_vals := [0, 0, 0],
                                mem_vals := [0, 0, 0]\<rparr>))) \<le> 120 \<and>
   eje_x 120 (vacio\<lparr>t_muestras := [100, 50, 120], proc_vals := [0, 0, 0],
                      mem_vals := [0, 0, 0]\<rparr>) = [40, - 10, 60] \<and>
   eje_x 120 (vacio\<lparr>t_muestras := [100, 50, 120], proc_vals := [0, 0, 0],
                      mem_vals := [0, 0, 0]\<rparr>) ! 1 < 0"
proof -
  let ?E = "vacio\<lparr>t_muestras := [100, 50, 120], proc_vals := [0, 0, 0],
                  mem_vals := [0, 0, 0]\<rparr>"
  have a: "aplica_todas [Anade 100 0 0, Recorta 100, Anade 50 0 0, Recorta 50,
                 Anade 120 0 0, Recorta 120] vacio = Inr ?E"
    by (simp add: anade_muestra_def recorta_antiguas_def recorta_bucle.simps
          VENTANA_SEGUNDOS_def vacio_def)
  have r: "recorta_antiguas 120 ?E = Inr ?E"
    by (simp add: recorta_antiguas_def recorta_bucle.simps VENTANA_SEGUNDOS_def vacio_def)
  have m: "Max (set (t_muestras ?E)) \<le> 120" by simp
  have x: "eje_x 120 ?E = [40, - 10, 60]"
    by (simp add: eje_x_def VENTANA_SEGUNDOS_def)
  have n: "eje_x 120 ?E ! 1 < 0" unfolding x by simp
  show ?thesis by (intro conjI) (rule a r m x n)+
qed

lemma deltas_por_indice:
  "map (\<lambda>i. x ! (i + 1) - x ! i) [0 ..< length x - 1] = deltas_consecutivos (x :: real list)"
  by (rule nth_equalityI) (simp_all add: deltas_consecutivos_def nth_tl)

lemma width_media:
  "2 \<le> length x \<Longrightarrow> width x = media (deltas_consecutivos x)"
  using deltas_por_indice [of x]
  by (simp add: width_def media_def deltas_consecutivos_def)

text \<open>
  C4. Width of the bars: with two samples or more the width is the arithmetic mean of
  the differences of consecutive positions; with an empty buffer there is no position and
  the width is \<open>INTERVALO_MUESTREO\<close>, the poll interval of one half second; with one sample
  there is one position and the width is \<open>INTERVALO_MUESTREO\<close> again.
\<close>

theorem regla_del_ancho:
  "(2 \<le> length (t_muestras e) \<longrightarrow>
      width (eje_x ahora e) = media (deltas_consecutivos (eje_x ahora e))) \<and>
   (\<forall>x. 2 \<le> length x \<longrightarrow> width x = media (deltas_consecutivos x)) \<and>
   (t_muestras e = [] \<longrightarrow>
      eje_x ahora e = [] \<and> width (eje_x ahora e) = INTERVALO_MUESTREO) \<and>
   (\<forall>t. t_muestras e = [t] \<longrightarrow>
      eje_x ahora e = [t - (ahora - VENTANA_SEGUNDOS)] \<and>
      width (eje_x ahora e) = INTERVALO_MUESTREO) \<and>
   INTERVALO_MUESTREO = 1 / 2"
  by (simp add: width_media eje_x_map)
     (simp add: width_def INTERVALO_MUESTREO_def)

theorem regla_del_ancho_witness:
  "width (eje_x 100 (vacio\<lparr>t_muestras := [97, 98, 100]\<rparr>)) = 3 / 2 \<and>
   media (deltas_consecutivos (eje_x 100 (vacio\<lparr>t_muestras := [97, 98, 100]\<rparr>))) = 3 / 2 \<and>
   eje_x 100 vacio = [] \<and> width (eje_x 100 vacio) = 1 / 2 \<and>
   eje_x 100 (vacio\<lparr>t_muestras := [98]\<rparr>) = [58] \<and>
   width (eje_x 100 (vacio\<lparr>t_muestras := [98]\<rparr>)) = 1 / 2"
proof -
  have m: "media (deltas_consecutivos (eje_x 100 (vacio\<lparr>t_muestras := [97, 98, 100]\<rparr>))) = 3 / 2"
    by (simp add: media_def deltas_consecutivos_def eje_x_def vacio_def)
  have l: "2 \<le> length (t_muestras (vacio\<lparr>t_muestras := [97, 98, 100]\<rparr>))" by simp
  have v: "t_muestras vacio = []" by (simp add: vacio_def)
  have u: "t_muestras (vacio\<lparr>t_muestras := [98]\<rparr>) = [98]" by simp
  from regla_del_ancho [of "vacio\<lparr>t_muestras := [97, 98, 100]\<rparr>" 100] l
  have "width (eje_x 100 (vacio\<lparr>t_muestras := [97, 98, 100]\<rparr>)) =
     media (deltas_consecutivos (eje_x 100 (vacio\<lparr>t_muestras := [97, 98, 100]\<rparr>)))"
    by blast
  from this m have a: "width (eje_x 100 (vacio\<lparr>t_muestras := [97, 98, 100]\<rparr>)) = 3 / 2"
    by (rule trans)
  from regla_del_ancho [of vacio 100] v
  have "eje_x 100 vacio = [] \<and> width (eje_x 100 vacio) = INTERVALO_MUESTREO \<and>
     INTERVALO_MUESTREO = 1 / 2" by blast
  then have b: "eje_x 100 vacio = [] \<and> width (eje_x 100 vacio) = 1 / 2"
    by (elim conjE, intro conjI) (assumption, rule trans)
  from regla_del_ancho [of "vacio\<lparr>t_muestras := [98]\<rparr>" 100] u
  have "eje_x 100 (vacio\<lparr>t_muestras := [98]\<rparr>) = [98 - (100 - VENTANA_SEGUNDOS)] \<and>
     width (eje_x 100 (vacio\<lparr>t_muestras := [98]\<rparr>)) = INTERVALO_MUESTREO \<and>
     INTERVALO_MUESTREO = 1 / 2" by blast
  then have c: "eje_x 100 (vacio\<lparr>t_muestras := [98]\<rparr>) = [58] \<and>
     width (eje_x 100 (vacio\<lparr>t_muestras := [98]\<rparr>)) = 1 / 2"
    by (elim conjE, intro conjI) (simp add: VENTANA_SEGUNDOS_def, rule trans)
  from a b c m show ?thesis by blast
qed

subsection \<open>Regular sampling\<close>

lemma recorta_muestras:
  assumes "parejos e" and "sorted (t_muestras e)"
  shows "\<exists>e'. recorta_antiguas ahora e = Inr e' \<and> parejos e' \<and>
           muestras e' = filter (\<lambda>(t, p, m). ahora - VENTANA_SEGUNDOS \<le> t) (muestras e) \<and>
           archivo e' = archivo e \<and> pantalla e' = pantalla e"
proof -
  let ?k = "caducadas (ahora - VENTANA_SEGUNDOS) e"
  let ?e' = "e\<lparr>t_muestras := drop ?k (t_muestras e), proc_vals := drop ?k (proc_vals e),
               mem_vals := drop ?k (mem_vals e)\<rparr>"
  have "recorta_antiguas ahora e = Inr ?e'"
    using assms(1) by (rule recorta_antiguas_parejos)
  moreover have "parejos ?e'" using assms(1) by (rule parejos_drop)
  moreover have "muestras ?e' = filter (\<lambda>(t, p, m). ahora - VENTANA_SEGUNDOS \<le> t) (muestras e)"
    using assms(2) by (simp add: muestras_drop muestras_filter)
  ultimately show ?thesis by (intro exI[of _ ?e']) simp
qed

lemma t_muestras_de_muestras: "parejos e \<Longrightarrow> t_muestras e = map fst (muestras e)"
  by (simp add: parejos_def muestras_def)

lemma proc_vals_de_muestras: "parejos e \<Longrightarrow> proc_vals e = map (fst \<circ> snd) (muestras e)"
  by (simp add: parejos_def muestras_def map_fst_zip map_snd_zip flip: map_map)

lemma mem_vals_de_muestras: "parejos e \<Longrightarrow> mem_vals e = map (snd \<circ> snd) (muestras e)"
  by (simp add: parejos_def muestras_def map_fst_zip map_snd_zip flip: map_map)

lemma aplica_todas_append:
  "aplica_todas (as @ bs) e =
     (case aplica_todas as e of Inl x \<Rightarrow> Inl x | Inr e' \<Rightarrow> aplica_todas bs e')"
  by (induction as arbitrary: e) (auto split: sum.splits)

lemma muestreo_regular_Suc:
  "muestreo_regular t0 delta p m (Suc n) =
     muestreo_regular t0 delta p m n @
       [Anade (t0 + real n * delta) (p n) (m n), Recorta (t0 + real n * delta)]"
  by (simp add: muestreo_regular_def)

lemma sorted_progresion:
  "0 \<le> delta \<Longrightarrow> sorted (map (\<lambda>i. t0 + real i * delta) [k ..< n])"
  by (simp add: sorted_map sorted_wrt_iff_nth_less mult_right_mono)

lemma muestreo_regular_estado:
  assumes "0 \<le> delta"
  shows "\<exists>e. aplica_todas (muestreo_regular t0 delta p m n) vacio = Inr e \<and> parejos e \<and>
           muestras e = filter (\<lambda>(t, p', m'). t0 + real n * delta - delta - VENTANA_SEGUNDOS \<le> t)
                          (map (\<lambda>i. (t0 + real i * delta, p i, m i)) [0 ..< n]) \<and>
           archivo e = [] \<and> pantalla e = None"
proof (induction n)
  case 0
  show ?case by (simp add: muestreo_regular_def vacio_def parejos_def muestras_def)
next
  case (Suc n)
  let ?f = "\<lambda>i. t0 + real i * delta"
  let ?g = "\<lambda>i. (?f i, p i, m i)"
  let ?c = "\<lambda>n. t0 + real n * delta - delta - VENTANA_SEGUNDOS"
  let ?P = "\<lambda>c (x :: real \<times> real \<times> real). c \<le> fst x"
  from Suc.IH obtain e where
    r: "aplica_todas (muestreo_regular t0 delta p m n) vacio = Inr e" and pe: "parejos e"
    and me: "muestras e = filter (?P (?c n)) (map ?g [0 ..< n])"
    and ae: "archivo e = []" "pantalla e = None"
    by (auto simp: case_prod_beta)
  let ?e1 = "anade_muestra (?f n) (p n) (m n) e"
  have p1: "parejos ?e1" using pe by (rule parejos_anade)
  have m1: "muestras ?e1 = muestras e @ [?g n]" using pe by (rule muestras_anade)
  have t1: "t_muestras ?e1 = filter (\<lambda>t. ?c n \<le> t) (map ?f [0 ..< n]) @ [?f n]"
    using t_muestras_de_muestras [OF p1] m1 me
    by (simp add: filter_map comp_def)
  have "\<forall>t \<in> set (map ?f [0 ..< n]). t \<le> ?f n"
    using assms by (auto simp: mult_right_mono)
  then have s1: "sorted (t_muestras ?e1)"
    unfolding t1 using sorted_progresion [OF assms, of t0 0 n]
    by (auto simp: sorted_append sorted_wrt_filter)
  from recorta_muestras [OF p1 s1, of "?f n"] obtain e' where
    r': "recorta_antiguas (?f n) ?e1 = Inr e'" and pe': "parejos e'"
    and me': "muestras e' = filter (\<lambda>(t, p, m). ?f n - VENTANA_SEGUNDOS \<le> t) (muestras ?e1)"
    and ae': "archivo e' = archivo ?e1" "pantalla e' = pantalla ?e1"
    by blast
  define c0 where "c0 = ?c n"
  define c1 where "c1 = ?f n - VENTANA_SEGUNDOS"
  define G where "G = map ?g [0 ..< n]"
  define gn where "gn = ?g n"
  have c: "?c (Suc n) = c1" by (simp add: c1_def algebra_simps)
  have cm: "c0 \<le> c1" using assms by (simp add: c0_def c1_def)
  have G: "map ?g [0 ..< Suc n] = G @ [gn]" by (simp add: G_def gn_def)
  have "VENTANA_SEGUNDOS \<ge> 0" by (simp add: VENTANA_SEGUNDOS_def)
  then have Pn: "?P c1 gn" by (simp add: c1_def gn_def)
  have ff: "filter (?P c1) (filter (?P c0) G) = filter (?P c1) G"
    using cm by (auto intro!: filter_cong)
  have "muestras e' = filter (?P c1) (filter (?P c0) G @ [gn])"
    unfolding me' m1 me c0_def c1_def G_def gn_def by (simp add: case_prod_beta)
  also have "\<dots> = filter (?P c1) G @ [gn]" using ff Pn by simp
  also have "\<dots> = filter (?P c1) (map ?g [0 ..< Suc n])" unfolding G using Pn by simp
  finally have "muestras e' = filter (?P (?c (Suc n))) (map ?g [0 ..< Suc n])"
    unfolding c .
  moreover have "aplica_todas (muestreo_regular t0 delta p m (Suc n)) vacio = Inr e'"
    using r r' by (simp add: muestreo_regular_Suc aplica_todas_append)
  moreover have "archivo e' = [] \<and> pantalla e' = None"
    using ae ae' by (simp add: anade_muestra_def)
  ultimately show ?case using pe' by (intro exI[of _ e']) (simp add: case_prod_beta)
qed

lemma inserciones_Suc:
  "inserciones t0 delta p m (Suc n) =
     inserciones t0 delta p m n @ [Anade (t0 + real n * delta) (p n) (m n)]"
  by (simp add: inserciones_def)

lemma aplica_inserciones:
  "aplica_todas (inserciones t0 delta p m n) e =
     Inr (e\<lparr>t_muestras := t_muestras e @ map (\<lambda>i. t0 + real i * delta) [0 ..< n],
            proc_vals := proc_vals e @ map p [0 ..< n],
            mem_vals := mem_vals e @ map m [0 ..< n]\<rparr>)"
  by (induction n) (simp_all add: inserciones_Suc aplica_todas_append anade_muestra_def, simp add: inserciones_def)

lemma width_progresion:
  assumes "k + 2 \<le> n"
  shows "width (map (\<lambda>i. a + real i * delta) [k ..< n]) = delta"
proof -
  let ?x = "map (\<lambda>i. a + real i * delta) [k ..< n]"
  have l: "length ?x - 1 = n - k - 1" by simp
  have "map (\<lambda>i. ?x ! (i + 1) - ?x ! i) [0 ..< n - k - 1] = replicate (n - k - 1) delta"
  proof (rule nth_equalityI)
    show "length (map (\<lambda>i. ?x ! (i + 1) - ?x ! i) [0 ..< n - k - 1]) =
          length (replicate (n - k - 1) delta)" by simp
  next
    fix i assume "i < length (map (\<lambda>i. ?x ! (i + 1) - ?x ! i) [0 ..< n - k - 1])"
    then have i: "i < n - k - 1" by simp
    then have "k + Suc i < n" "k + i < n" by arith+
    then have "?x ! (i + 1) - ?x ! i = delta" by (simp add: algebra_simps)
    with i show "map (\<lambda>i. ?x ! (i + 1) - ?x ! i) [0 ..< n - k - 1] ! i =
          replicate (n - k - 1) delta ! i" by simp
  qed
  then have s: "sum_list (map (\<lambda>i. ?x ! (i + 1) - ?x ! i) [0 ..< n - k - 1]) =
        real (n - k - 1) * delta"
    by (simp only: sum_list_replicate)
  have "2 \<le> length ?x" using assms by simp
  moreover have "real (n - k - 1) \<noteq> 0" using assms by simp
  ultimately show ?thesis
    unfolding width_def Let_def l s by simp
qed


lemma takeWhile_hasta:
  assumes "i < length xs" and "\<not> P (xs ! i)"
  shows "length (takeWhile P xs) \<le> i"
proof (rule ccontr)
  assume "\<not> length (takeWhile P xs) \<le> i"
  then have l: "i < length (takeWhile P xs)" by simp
  then have "takeWhile P xs ! i \<in> set (takeWhile P xs)" by (rule nth_mem)
  then have "P (takeWhile P xs ! i)" by (rule set_takeWhileD [THEN conjunct2])
  with l assms(2) show False by (simp add: takeWhile_nth)
qed




lemma map_real_desde_uno: "map (\<lambda>i. 1 + real i * 1) [0 ..< n] = map real [1 ..< Suc n]"
proof -
  have "map real [Suc 0 ..< Suc n] = map real (map Suc [0 ..< n])"
    by (simp only: map_Suc_upt)
  then show ?thesis by (simp add: comp_def add.commute)
qed

text \<open>
  C5. The scenario of the full window: inserting the samples of times 0, 1, ..., 59 and
  evicting at 59, in one go or after each insert as the loop does, keeps the 60 samples;
  the positions are 1, 2, ..., 60 and the width is 1.
\<close>

theorem escenario_ventana_llena:
  "\<exists>e'. aplica_todas (inserciones 0 1 p m 60 @ [Recorta 59]) vacio = Inr e' \<and>
        aplica_todas (muestreo_regular 0 1 p m 60) vacio = Inr e' \<and>
        length (muestras e') = 60 \<and>
        t_muestras e' = map real [0 ..< 60] \<and>
        proc_vals e' = map p [0 ..< 60] \<and> mem_vals e' = map m [0 ..< 60] \<and>
        eje_x 59 e' = map real [1 ..< 61] \<and> width (eje_x 59 e') = 1"
proof -
  let ?E = "vacio\<lparr>t_muestras := map real [0 ..< 60], proc_vals := map p [0 ..< 60],
                  mem_vals := map m [0 ..< 60]\<rparr>"
  have ins: "aplica_todas (inserciones 0 1 p m 60) vacio = Inr ?E"
    unfolding aplica_inserciones by (simp add: vacio_def)
  have pE: "parejos ?E" by (simp add: parejos_def)
  have "[0 ..< 60] = 0 # [1 ..< 60]" by (simp add: upt_conv_Cons)
  then have "caducadas (59 - VENTANA_SEGUNDOS) ?E = 0"
    by (simp add: caducadas_def VENTANA_SEGUNDOS_def)
  then have rec: "recorta_antiguas 59 ?E = Inr ?E"
    using recorta_antiguas_parejos [OF pE, of 59] by simp
  have a: "aplica_todas (inserciones 0 1 p m 60 @ [Recorta 59]) vacio = Inr ?E"
    by (simp add: aplica_todas_append ins rec)
  from muestreo_regular_estado [of 1 0 p m 60] obtain e where
    r: "aplica_todas (muestreo_regular 0 1 p m 60) vacio = Inr e" and pe: "parejos e"
    and me: "muestras e = filter (\<lambda>(t, p', m'). 0 + real 60 * 1 - 1 - VENTANA_SEGUNDOS \<le> t)
                            (map (\<lambda>i. (0 + real i * 1, p i, m i)) [0 ..< 60])"
    and ae: "archivo e = []" "pantalla e = None"
    by auto
  have "muestras e = map (\<lambda>i. (real i, p i, m i)) [0 ..< 60]"
    unfolding me by (simp add: VENTANA_SEGUNDOS_def filter_map comp_def)
  then have "t_muestras e = map real [0 ..< 60]" "proc_vals e = map p [0 ..< 60]"
    "mem_vals e = map m [0 ..< 60]"
    using t_muestras_de_muestras [OF pe] proc_vals_de_muestras [OF pe]
      mem_vals_de_muestras [OF pe] by (simp_all add: comp_def)
  with ae have "e = ?E" by (intro estado.equality) (simp_all add: vacio_def)
  with r have b: "aplica_todas (muestreo_regular 0 1 p m 60) vacio = Inr ?E" by simp
  have x0: "eje_x 59 ?E = map (\<lambda>i. 1 + real i * 1) [0 ..< 60]"
    by (simp add: eje_x_map VENTANA_SEGUNDOS_def)
  have x: "eje_x 59 ?E = map real [1 ..< 61]"
    unfolding x0 map_real_desde_uno by simp
  have w: "width (eje_x 59 ?E) = 1"
    unfolding x0 by (rule width_progresion) simp
  have l: "length (muestras ?E) = 60" by (simp add: muestras_def)
  show ?thesis
    by (intro exI[of _ ?E] conjI a b l x w) simp_all
qed

text \<open>
  C5, as the specification words it, has the positions run from 0 to 59. They do not:
  the cut of the eviction at 59 is \<open>59 - 60 = -1\<close>, so the sample of time 0 stands at
  position 1 and the sample of time 59 at position 60.
\<close>

theorem escenario_ventana_llena_counterexample:
  "aplica_todas (inserciones 0 1 sin_carga sin_carga 60 @ [Recorta 59]) vacio =
     Inr (vacio\<lparr>t_muestras := map real [0 ..< 60], proc_vals := map sin_carga [0 ..< 60],
                 mem_vals := map sin_carga [0 ..< 60]\<rparr>) \<and>
   eje_x 59 (vacio\<lparr>t_muestras := map real [0 ..< 60], proc_vals := map sin_carga [0 ..< 60],
                     mem_vals := map sin_carga [0 ..< 60]\<rparr>) \<noteq> map real [0 ..< 60] \<and>
   hd (eje_x 59 (vacio\<lparr>t_muestras := map real [0 ..< 60], proc_vals := map sin_carga [0 ..< 60],
                     mem_vals := map sin_carga [0 ..< 60]\<rparr>)) = 1 \<and>
   last (eje_x 59 (vacio\<lparr>t_muestras := map real [0 ..< 60], proc_vals := map sin_carga [0 ..< 60],
                     mem_vals := map sin_carga [0 ..< 60]\<rparr>)) = 60"
proof -
  let ?E = "vacio\<lparr>t_muestras := map real [0 ..< 60], proc_vals := map sin_carga [0 ..< 60],
                  mem_vals := map sin_carga [0 ..< 60]\<rparr>"
  have ins: "aplica_todas (inserciones 0 1 sin_carga sin_carga 60) vacio = Inr ?E"
    unfolding aplica_inserciones by (simp add: vacio_def)
  have pE: "parejos ?E" by (simp add: parejos_def)
  have c: "[0 ..< 60] = 0 # [1 ..< 60]" by (simp add: upt_conv_Cons)
  then have "caducadas (59 - VENTANA_SEGUNDOS) ?E = 0"
    by (simp add: caducadas_def VENTANA_SEGUNDOS_def)
  then have rec: "recorta_antiguas 59 ?E = Inr ?E"
    using recorta_antiguas_parejos [OF pE, of 59] by simp
  have a: "aplica_todas (inserciones 0 1 sin_carga sin_carga 60 @ [Recorta 59]) vacio = Inr ?E"
    by (simp add: aplica_todas_append ins rec)
  have x: "eje_x 59 ?E = map (\<lambda>t. t - (59 - VENTANA_SEGUNDOS)) (map real [0 ..< 60])"
    by (simp add: eje_x_map)
  have h: "hd (eje_x 59 ?E) = 1"
    unfolding x by (subst c) (simp add: VENTANA_SEGUNDOS_def)
  have "[0 ..< 60] = [0 ..< 59] @ [59]" using upt_Suc_append [of 0 59] by simp
  then have la: "last (eje_x 59 ?E) = 60"
    unfolding x by (simp add: VENTANA_SEGUNDOS_def)
  have "hd (map real [0 ..< 60]) = 0" by (subst c) simp
  with h have ne: "eje_x 59 ?E \<noteq> map real [0 ..< 60]" by auto
  from a ne h la show ?thesis by blast
qed





subsection \<open>Colour\<close>

text \<open>
  C7. Colour of a percentage: 0 is pure green \<open>(0, 1, 0)\<close> and 100 is pure red
  \<open>(1, 0, 0)\<close>; between 0 and 100 the red component does not decrease and the green
  component does not increase as the percentage grows; below 0 the colour is that of 0
  and above 100 that of 100.
\<close>

theorem color_correcto:
  "color_por_porcentaje 0 = (0, 1, 0) \<and> color_por_porcentaje 100 = (1, 0, 0) \<and>
   (\<forall>a b. 0 \<le> a \<and> a < b \<and> b \<le> 100 \<longrightarrow>
      fst (color_por_porcentaje a) \<le> fst (color_por_porcentaje b) \<and>
      fst (snd (color_por_porcentaje a)) \<ge> fst (snd (color_por_porcentaje b))) \<and>
   (\<forall>pct < 0. color_por_porcentaje pct = color_por_porcentaje 0) \<and>
   (\<forall>pct > 100. color_por_porcentaje pct = color_por_porcentaje 100)"
  by (auto simp: color_por_porcentaje_def Let_def min_def max_def)

theorem color_correcto_witness:
  "color_por_porcentaje (-10) = color_por_porcentaje 0 \<and>
   color_por_porcentaje 150 = color_por_porcentaje 100 \<and>
   fst (color_por_porcentaje 20) \<le> fst (color_por_porcentaje 80) \<and>
   fst (snd (color_por_porcentaje 20)) \<ge> fst (snd (color_por_porcentaje 80))"
proof -
  have "(0::real) \<le> 20 \<and> (20::real) < 80 \<and> (80::real) \<le> 100" "(-10::real) < 0" "(150::real) > 100"
    by simp_all
  with color_correcto show ?thesis by blast
qed

section \<open>Properties of the loop and of the file\<close>

subsection \<open>Failing queries\<close>

lemma redibuja_campos [simp]:
  "archivo (redibuja a e) = archivo e" "t_muestras (redibuja a e) = t_muestras e"
  "proc_vals (redibuja a e) = proc_vals e" "mem_vals (redibuja a e) = mem_vals e"
  by (simp_all add: redibuja_def Let_def)

lemma redibuja_parejos [simp]: "parejos (redibuja a e) = parejos e"
  by (simp add: parejos_def)

lemma redibuja_muestras [simp]: "muestras (redibuja a e) = muestras e"
  by (simp add: muestras_def)

lemma iteracion_falla:
  "lecturas k = Inl err \<Longrightarrow> iteracion k e = Inl (err, e)"
  by (simp add: iteracion_def)

lemma iteracion_lee:
  assumes "parejos e" and "lecturas k = Inr (carga_proc, carga_mem)"
  shows "\<exists>e' j. iteracion k e = Inr e' \<and> parejos e' \<and>
           archivo e' = archivo e @ [fila_csv (reloj k) (fecha k) carga_proc carga_mem] \<and>
           j \<le> length (muestras e) \<and>
           muestras e' = drop j (muestras e) @ [(reloj k, carga_proc, carga_mem)]"
proof -
  let ?ahora = "reloj k"
  let ?e1 = "e\<lparr>archivo := archivo e @ [fila_csv ?ahora (fecha k) carga_proc carga_mem]\<rparr>"
  let ?e2 = "anade_muestra ?ahora carga_proc carga_mem ?e1"
  let ?j = "caducadas (?ahora - VENTANA_SEGUNDOS) ?e2"
  let ?e3 = "?e2\<lparr>t_muestras := drop ?j (t_muestras ?e2), proc_vals := drop ?j (proc_vals ?e2),
               mem_vals := drop ?j (mem_vals ?e2)\<rparr>"
  have p1: "parejos ?e1" using assms(1) by (simp add: parejos_def)
  then have p2: "parejos ?e2" by (rule parejos_anade)
  have r: "recorta_antiguas ?ahora ?e2 = Inr ?e3"
    using p2 by (rule recorta_antiguas_parejos)
  have p3: "parejos ?e3" using p2 by (rule parejos_drop)
  have it: "iteracion k e = Inr (redibuja ?ahora ?e3)"
    unfolding iteracion_def Let_def assms(2) using r by (simp add: Let_def)
  have t2: "t_muestras ?e2 = t_muestras e @ [?ahora]" by (simp add: anade_muestra_def)
  have "\<not> (t_muestras ?e2 ! length (t_muestras e) < ?ahora - VENTANA_SEGUNDOS)"
    unfolding t2 by (simp add: VENTANA_SEGUNDOS_def)
  moreover have "length (t_muestras e) < length (t_muestras ?e2)" unfolding t2 by simp
  ultimately have "?j \<le> length (t_muestras e)"
    unfolding caducadas_def by (rule takeWhile_hasta [rotated])
  moreover have lm: "length (muestras e) = length (t_muestras e)"
    using assms(1) by (simp add: muestras_def parejos_def)
  ultimately have j: "?j \<le> length (muestras e)" by simp
  have "muestras ?e2 = muestras ?e1 @ [(?ahora, carga_proc, carga_mem)]"
    using p1 by (rule muestras_anade)
  moreover have "muestras ?e1 = muestras e" by (simp add: muestras_def)
  ultimately have "muestras ?e3 = drop ?j (muestras e @ [(?ahora, carga_proc, carga_mem)])"
    by (simp only: muestras_drop)
  with j have m3: "muestras ?e3 = drop ?j (muestras e) @ [(?ahora, carga_proc, carga_mem)]"
    by simp
  have a3: "archivo ?e3 = archivo e @ [fila_csv ?ahora (fecha k) carga_proc carga_mem]"
    by (simp add: anade_muestra_def)
  show ?thesis
    using it p3 a3 j m3
    by (intro exI[of _ "redibuja ?ahora ?e3"] exI[of _ ?j]) (simp only: redibuja_campos redibuja_parejos redibuja_muestras simp_thms)
qed

lemma bucle_append:
  "bucle antes e = Sigue e1 \<Longrightarrow> bucle (antes @ despues) e = bucle despues e1"
proof (induction antes arbitrary: e)
  case Nil
  then show ?case by simp
next
  case (Cons ev antes)
  show ?case
  proof (cases ev)
    case Interrupcion
    with Cons.prems show ?thesis by simp
  next
    case (Tic k)
    with Cons show ?thesis by (auto split: sum.splits prod.splits)
  qed
qed

text \<open>
  C8. A failing query is fatal and leaves no trace: when a reading of the iteration
  fails (the utilisation query, or the memory query after it), the iteration raises that
  error with the state it started from, so no row is written and the three deques are
  untouched, and the loop ends with that error whatever events would follow. The readings
  come first: when they succeed, on deques in lockstep, the iteration appends the row of
  the sample to the file and the sample to the buffer.
\<close>

theorem fallo_de_lectura_fatal:
  "(utilizacion k = Inl err \<longrightarrow> lecturas k = Inl err) \<and>
   (\<forall>gpu. utilizacion k = Inr gpu \<and> memoria k = Inl err \<longrightarrow> lecturas k = Inl err) \<and>
   (lecturas k = Inl err \<longrightarrow>
      iteracion k e = Inl (err, e) \<and>
      (\<forall>antes e0 despues. bucle antes e0 = Sigue e \<longrightarrow>
         bucle (antes @ Tic k # despues) e0 = Fatal err e)) \<and>
   (\<forall>carga_proc carga_mem. parejos e \<and> lecturas k = Inr (carga_proc, carga_mem) \<longrightarrow>
      (\<exists>e' j. iteracion k e = Inr e' \<and>
         archivo e' = archivo e @ [fila_csv (reloj k) (fecha k) carga_proc carga_mem] \<and>
         j \<le> length (muestras e) \<and>
         muestras e' = drop j (muestras e) @ [(reloj k, carga_proc, carga_mem)]))"
proof (intro conjI allI impI)
  assume "utilizacion k = Inl err"
  then show "lecturas k = Inl err" by (simp add: lecturas_def)
next
  fix gpu assume "utilizacion k = Inr gpu \<and> memoria k = Inl err"
  then show "lecturas k = Inl err" by (simp add: lecturas_def)
next
  assume "lecturas k = Inl err"
  then show "iteracion k e = Inl (err, e)" by (rule iteracion_falla)
next
  fix antes e0 despues
  assume l: "lecturas k = Inl err" and b: "bucle antes e0 = Sigue e"
  from bucle_append [OF b, of "Tic k # despues"] iteracion_falla [OF l, of e]
  show "bucle (antes @ Tic k # despues) e0 = Fatal err e" by simp
next
  fix carga_proc carga_mem
  assume "parejos e \<and> lecturas k = Inr (carga_proc, carga_mem)"
  then show "\<exists>e' j. iteracion k e = Inr e' \<and>
         archivo e' = archivo e @ [fila_csv (reloj k) (fecha k) carga_proc carga_mem] \<and>
         j \<le> length (muestras e) \<and>
         muestras e' = drop j (muestras e) @ [(reloj k, carga_proc, carga_mem)]"
    using iteracion_lee [of e k carga_proc carga_mem] by blast
qed

subsection \<open>The rows of the file\<close>

lemma es_digito_digito: "n < 10 \<Longrightarrow> es_digito (digito n)"
proof -
  assume "n < 10"
  then have "n \<in> {0, 1, 2, 3, 4, 5, 6, 7, 8, 9}" by auto
  then show ?thesis by (auto simp: es_digito_def digito_def)
qed

lemma decimal_digitos: "list_all es_digito (decimal n)"
proof (induction n rule: decimal.induct)
  case (1 n)
  show ?case
  proof (cases "n < 10")
    case True
    then show ?thesis by (subst decimal.simps) (simp add: es_digito_digito)
  next
    case False
    with "1.IH" show ?thesis
      by (subst decimal.simps) (simp add: es_digito_digito)
  qed
qed

lemma decimal_no_vacio: "decimal n \<noteq> []"
  by (subst decimal.simps) simp

lemma length_decimal: "0 < k \<Longrightarrow> n < 10 ^ k \<Longrightarrow> length (decimal n) \<le> k"
proof (induction k arbitrary: n)
  case 0
  then show ?case by simp
next
  case (Suc k)
  show ?case
  proof (cases "n < 10")
    case True
    then show ?thesis by (subst decimal.simps) simp
  next
    case False
    then have k: "0 < k" using Suc.prems(2) by (cases k) auto
    from Suc.prems(2) have "n div 10 < 10 ^ k" by (simp add: less_mult_imp_div_less mult.commute)
    from Suc.IH [OF k this] False show ?thesis
      by (subst decimal.simps) simp
  qed
qed

lemma length_rellena: "length s \<le> k \<Longrightarrow> length (rellena k s) = k"
  by (simp add: rellena_def)

lemma cero_digito: "es_digito (CHR ''0'')"
  by (simp add: es_digito_def)

lemma rellena_digitos: "list_all es_digito s \<Longrightarrow> list_all es_digito (rellena k s)"
  by (auto simp: rellena_def list_all_iff cero_digito)

lemma punto_no_digito: "\<not> es_digito (CHR ''.'')" and menos_no_digito: "\<not> es_digito (CHR ''-'')"
  by (simp_all add: es_digito_def)

lemma con_decimales_forma:
  assumes "ent \<noteq> []" and "list_all es_digito ent" and "length fr = d"
    and "list_all es_digito fr"
  shows "con_decimales d (ent @ ''.'' @ fr)" and "con_decimales d (''-'' @ ent @ ''.'' @ fr)"
proof -
  have tw: "takeWhile es_digito (ent @ ''.'' @ fr) = ent"
    using assms(2) by (simp add: takeWhile_append2 list_all_iff punto_no_digito)
  from assms(1,2) have "es_digito (hd ent)" by (cases ent) simp_all
  with menos_no_digito have h: "hd ent \<noteq> CHR ''-''" by auto
  from assms(1) h have u: "(if ent @ ''.'' @ fr \<noteq> [] \<and> hd (ent @ ''.'' @ fr) = CHR ''-''
      then tl (ent @ ''.'' @ fr) else ent @ ''.'' @ fr) = ent @ ''.'' @ fr"
    by simp
  show "con_decimales d (ent @ ''.'' @ fr)"
    unfolding con_decimales_def u Let_def tw using assms by simp
  show "con_decimales d (''-'' @ ent @ ''.'' @ fr)"
    unfolding con_decimales_def Let_def using assms tw by simp
qed

lemma formato_f_decimales:
  assumes "0 < d"
  shows "con_decimales d (formato_f d v)"
proof -
  define n where "n = redondeo_par (\<bar>v\<bar> * 10 ^ d)"
  let ?ent = "decimal (n div 10 ^ d)"
  let ?frac = "rellena d (decimal (n mod 10 ^ d))"
  have "n mod 10 ^ d < 10 ^ d" by simp
  then have "length (decimal (n mod 10 ^ d)) \<le> d" using assms by (intro length_decimal)
  then have l: "length ?frac = d" by (rule length_rellena)
  have f: "list_all es_digito ?frac" by (intro rellena_digitos decimal_digitos)
  have e: "?ent \<noteq> []" "list_all es_digito ?ent" by (rule decimal_no_vacio, rule decimal_digitos)
  have "formato_f d v = (if v < 0 then ''-'' @ ?ent @ ''.'' @ ?frac else ?ent @ ''.'' @ ?frac)"
    using assms by (simp add: formato_f_def n_def Let_def)
  then show ?thesis
    using con_decimales_forma [OF e l f] by (simp split: if_splits)
qed

lemma encaja_digitos:
  "list_all es_digito ds \<Longrightarrow> encaja ps cs \<Longrightarrow>
   encaja (replicate (length ds) (CHR ''d'') @ ps) (ds @ cs)"
  by (induction ds) simp_all

lemma campo_fecha:
  assumes "0 < k" and "n < 10 ^ k" and "encaja ps cs"
  shows "encaja (replicate k (CHR ''d'') @ ps) (rellena k (decimal n) @ cs)"
proof -
  have "length (rellena k (decimal n)) = k"
    using assms(1,2) by (intro length_rellena length_decimal)
  moreover have "list_all es_digito (rellena k (decimal n))"
    by (intro rellena_digitos decimal_digitos)
  ultimately show ?thesis using encaja_digitos [OF _ assms(3)] by metis
qed

lemma forma_fecha_partes:
  "forma_fecha = replicate 4 (CHR ''d'') @ ''-'' @ replicate 2 (CHR ''d'') @ ''-'' @
     replicate 2 (CHR ''d'') @ '' '' @ replicate 2 (CHR ''d'') @ '':'' @
     replicate 2 (CHR ''d'') @ '':'' @ replicate 2 (CHR ''d'') @ []"
  by (simp add: forma_fecha_def numeral_eq_Suc)

lemma encaja_literal:
  "p \<noteq> CHR ''d'' \<Longrightarrow> encaja ps cs \<Longrightarrow> encaja ([p] @ ps) ([p] @ cs)"
  by simp

lemma isoformat_encaja:
  assumes "datetime_valido f"
  shows "encaja forma_fecha (isoformat_seconds f)"
proof -
  from assms have b: "year f < 10 ^ 4" "month f < 10 ^ 2" "day f < 10 ^ 2" "hour f < 10 ^ 2"
    "minute f < 10 ^ 2" "second f < 10 ^ 2"
    by (simp_all add: datetime_valido_def)
  have s: "isoformat_seconds f =
     rellena 4 (decimal (year f)) @ ''-'' @ rellena 2 (decimal (month f)) @ ''-'' @
     rellena 2 (decimal (day f)) @ '' '' @ rellena 2 (decimal (hour f)) @ '':'' @
     rellena 2 (decimal (minute f)) @ '':'' @ rellena 2 (decimal (second f)) @ []"
    by (simp add: isoformat_seconds_def)
  show ?thesis
    unfolding s forma_fecha_partes
    by (intro campo_fecha encaja_literal b) simp_all
qed

lemma bucle_filas:
  assumes "parejos e" and "\<forall>k \<in> set ks. \<exists>c. lecturas k = Inr c"
  shows "\<exists>e'. bucle (map Tic ks) e = Sigue e' \<and> parejos e' \<and>
           archivo e' = archivo e @ map fila_de ks"
  using assms
proof (induction ks arbitrary: e)
  case Nil
  then show ?case by simp
next
  case (Cons k ks)
  from Cons.prems(2) obtain cp cm where l: "lecturas k = Inr (cp, cm)" by force
  from iteracion_lee [OF Cons.prems(1) l] obtain e1 where
    i: "iteracion k e = Inr e1" and p: "parejos e1"
    and a: "archivo e1 = archivo e @ [fila_csv (reloj k) (fecha k) cp cm]" by blast
  from Cons.prems(2) have "\<forall>k \<in> set ks. \<exists>c. lecturas k = Inr c" by simp
  from Cons.IH [OF p this] obtain e' where
    "bucle (map Tic ks) e1 = Sigue e'" "parejos e'" "archivo e' = archivo e1 @ map fila_de ks"
    by blast
  with i a l show ?case by (simp add: fila_de_def)
qed

lemma epoch_sin_decimales: "\<not> con_decimales 3 ''epoch''"
  by (simp add: con_decimales_def es_digito_def)

lemma fila_de_no_cabecera:
  assumes "lecturas k = Inr c"
  shows "fila_de k \<noteq> cabecera"
proof
  assume eq: "fila_de k = cabecera"
  obtain cp cm where "c = (cp, cm)" by (cases c)
  with assms have "hd (fila_de k) = formato_f 3 (reloj k)"
    by (simp add: fila_de_def fila_csv_def)
  with eq have "formato_f 3 (reloj k) = ''epoch''" by (simp add: cabecera_def)
  with formato_f_decimales [of 3 "reloj k"] epoch_sin_decimales show False by simp
qed

lemma parejos_arranque: "parejos (arranque previo)"
  by (simp add: parejos_def arranque_def)

text \<open>
  C9. Rows of the CSV file: the row of a sample is the epoch with exactly 3 decimals,
  the date in the shape \<open>dddd-dd-dd dd:dd:dd\<close> (second precision, for a valid date), and
  the two loads with exactly 2 decimals. The header is
  \<open>epoch,fecha_completa,carga_procesador,carga_memoria\<close>; it is written when the file does
  not exist and only then. N iterations with successful readings on a fresh file leave
  the header followed by the N rows, N + 1 rows with the header occurring once; on an
  existing file they leave its rows followed by the N rows.
\<close>

theorem esquema_csv:
  "(fila_csv ahora f carga_proc carga_mem =
      [formato_f 3 ahora, isoformat_seconds f, formato_f 2 carga_proc, formato_f 2 carga_mem] \<and>
    con_decimales 3 (formato_f 3 ahora) \<and>
    con_decimales 2 (formato_f 2 carga_proc) \<and> con_decimales 2 (formato_f 2 carga_mem) \<and>
    (datetime_valido f \<longrightarrow> encaja forma_fecha (isoformat_seconds f))) \<and>
   (\<forall>c. lecturas k = Inr c \<longrightarrow> fila_de k = fila_csv (reloj k) (fecha k) (fst c) (snd c)) \<and>
   linea_csv cabecera = ''epoch,fecha_completa,carga_procesador,carga_memoria'' \<and>
   abre_csv None = [cabecera] \<and> abre_csv (Some filas) = filas \<and>
   ((\<forall>k \<in> set ks. \<exists>c. lecturas k = Inr c) \<longrightarrow>
      (\<exists>e'. bucle (map Tic ks) (arranque None) = Sigue e' \<and>
            archivo e' = cabecera # map fila_de ks \<and>
            length (archivo e') = length ks + 1 \<and>
            count_list (archivo e') cabecera = 1) \<and>
      (\<exists>e'. bucle (map Tic ks) (arranque (Some filas)) = Sigue e' \<and>
            archivo e' = filas @ map fila_de ks))"
proof (intro conjI allI impI)
  show "fila_csv ahora f carga_proc carga_mem =
      [formato_f 3 ahora, isoformat_seconds f, formato_f 2 carga_proc, formato_f 2 carga_mem]"
    by (simp add: fila_csv_def)
  show "con_decimales 3 (formato_f 3 ahora)" by (rule formato_f_decimales) simp
  show "con_decimales 2 (formato_f 2 carga_proc)" by (rule formato_f_decimales) simp
  show "con_decimales 2 (formato_f 2 carga_mem)" by (rule formato_f_decimales) simp
  show "linea_csv cabecera = ''epoch,fecha_completa,carga_procesador,carga_memoria''"
    by (simp add: linea_csv_def cabecera_def campo_csv_def)
  show "abre_csv None = [cabecera]" by (simp add: abre_csv_def)
  show "abre_csv (Some filas) = filas" by (simp add: abre_csv_def)
next
  assume "datetime_valido f"
  then show "encaja forma_fecha (isoformat_seconds f)" by (rule isoformat_encaja)
next
  fix c assume "lecturas k = Inr c"
  then show "fila_de k = fila_csv (reloj k) (fecha k) (fst c) (snd c)"
    by (simp add: fila_de_def case_prod_beta)
next
  assume h: "\<forall>k \<in> set ks. \<exists>c. lecturas k = Inr c"
  from bucle_filas [OF parejos_arranque h, of None] obtain e' where
    b: "bucle (map Tic ks) (arranque None) = Sigue e'"
    and a: "archivo e' = archivo (arranque None) @ map fila_de ks" by blast
  from a have a': "archivo e' = cabecera # map fila_de ks"
    by (simp add: arranque_def abre_csv_def)
  have "cabecera \<notin> set (map fila_de ks)"
    using h fila_de_no_cabecera by force
  then have "count_list (archivo e') cabecera = 1"
    unfolding a' by simp
  with b a' show "\<exists>e'. bucle (map Tic ks) (arranque None) = Sigue e' \<and>
            archivo e' = cabecera # map fila_de ks \<and>
            length (archivo e') = length ks + 1 \<and>
            count_list (archivo e') cabecera = 1"
    by (intro exI[of _ e']) simp
next
  assume h: "\<forall>k \<in> set ks. \<exists>c. lecturas k = Inr c"
  from bucle_filas [OF parejos_arranque h, of "Some filas"] obtain e' where
    "bucle (map Tic ks) (arranque (Some filas)) = Sigue e'"
    "archivo e' = archivo (arranque (Some filas)) @ map fila_de ks" by blast
  then show "\<exists>e'. bucle (map Tic ks) (arranque (Some filas)) = Sigue e' \<and>
            archivo e' = filas @ map fila_de ks"
    by (intro exI[of _ e']) (simp add: arranque_def abre_csv_def)
qed

lemma lecturas_ejemplo: "lecturas tic_ejemplo = Inr (42, 147 / 2)"
  by (simp add: lecturas_def tic_ejemplo_def)

lemma fecha_ejemplo_valida: "datetime_valido fecha_ejemplo"
  by (simp add: datetime_valido_def fecha_ejemplo_def)

lemma fila_ejemplo:
  "fila_de tic_ejemplo = [''1700000000.123'', ''2023-11-14 12:00:00'', ''42.00'', ''73.50'']"
  unfolding fila_de_def lecturas_ejemplo
  by (simp add: fila_csv_def tic_ejemplo_def fecha_ejemplo_def
        formato_f_def redondeo_par_def isoformat_seconds_def decimal.simps digito_def rellena_def)

lemma linea_ejemplo:
  "linea_csv [''1700000000.123'', ''2023-11-14 12:00:00'', ''42.00'', ''73.50''] =
     ''1700000000.123,2023-11-14 12:00:00,42.00,73.50''"
  by (simp add: linea_csv_def campo_csv_def)

text \<open>Two iterations of the documented example on a fresh file.\<close>

theorem esquema_csv_witness:
  "encaja forma_fecha (isoformat_seconds fecha_ejemplo) \<and>
   (\<exists>e'. bucle (map Tic [tic_ejemplo, tic_ejemplo]) (arranque None) = Sigue e' \<and>
      length (archivo e') = 3 \<and> count_list (archivo e') cabecera = 1 \<and>
      map linea_csv (archivo e') =
        [''epoch,fecha_completa,carga_procesador,carga_memoria'',
         ''1700000000.123,2023-11-14 12:00:00,42.00,73.50'',
         ''1700000000.123,2023-11-14 12:00:00,42.00,73.50''])"
proof -
  have "\<exists>c. lecturas tic_ejemplo = Inr c"
    using lecturas_ejemplo by (rule exI)
  then have h: "\<forall>k \<in> set [tic_ejemplo, tic_ejemplo]. \<exists>c. lecturas k = Inr c"
    by (simp only: list.set ball_simps simp_thms)
  note t = esquema_csv [of _ fecha_ejemplo _ _ _ _ "[tic_ejemplo, tic_ejemplo]"]
  from t fecha_ejemplo_valida have d: "encaja forma_fecha (isoformat_seconds fecha_ejemplo)"
    by blast
  from t have c: "linea_csv cabecera = ''epoch,fecha_completa,carga_procesador,carga_memoria''"
    by blast
  from t h obtain e' where
    b: "bucle (map Tic [tic_ejemplo, tic_ejemplo]) (arranque None) = Sigue e'"
    and a: "archivo e' = cabecera # map fila_de [tic_ejemplo, tic_ejemplo]"
    and l: "length (archivo e') = length [tic_ejemplo, tic_ejemplo] + 1"
    and n: "count_list (archivo e') cabecera = 1"
    by blast
  have m: "map linea_csv (archivo e') =
        [''epoch,fecha_completa,carga_procesador,carga_memoria'',
         ''1700000000.123,2023-11-14 12:00:00,42.00,73.50'',
         ''1700000000.123,2023-11-14 12:00:00,42.00,73.50'']"
    unfolding a by (simp add: c fila_ejemplo linea_ejemplo)
  from l have l': "length (archivo e') = 3" by simp
  show ?thesis
    by (intro conjI exI[of _ e']) (rule d b l' n m)+
qed

text \<open>
  The utilisation query fails in the first iteration on a fresh file: the file keeps its
  header alone and the loop is over.
\<close>

theorem fallo_de_lectura_fatal_witness:
  "lecturas tic_fallido = Inl NVMLError \<and>
   iteracion tic_fallido (arranque None) = Inl (NVMLError, arranque None) \<and>
   bucle ([] @ Tic tic_fallido # [Tic tic_ejemplo]) (arranque None) =
     Fatal NVMLError (arranque None) \<and>
   (\<exists>e'. iteracion tic_ejemplo (arranque None) = Inr e' \<and>
      archivo e' = [cabecera, fila_de tic_ejemplo] \<and>
      muestras e' = [(1700000000123 / 1000, 42, 147 / 2)])"
proof -
  note t = fallo_de_lectura_fatal [of tic_fallido NVMLError "arranque None"]
  have u: "utilizacion tic_fallido = Inl NVMLError" by (simp add: tic_fallido_def)
  from t u have l: "lecturas tic_fallido = Inl NVMLError" by blast
  from t l have i: "iteracion tic_fallido (arranque None) = Inl (NVMLError, arranque None)"
    by blast
  have s: "bucle [] (arranque None) = Sigue (arranque None)" by simp
  from t l s have b: "bucle ([] @ Tic tic_fallido # [Tic tic_ejemplo]) (arranque None) =
     Fatal NVMLError (arranque None)" by blast
  have m0: "muestras (arranque None) = []" by (simp add: muestras_def arranque_def)
  have a0: "archivo (arranque None) = [cabecera]" by (simp add: arranque_def abre_csv_def)
  have r: "reloj tic_ejemplo = 1700000000123 / 1000" by (simp add: tic_ejemplo_def)
  have f: "fila_de tic_ejemplo =
      fila_csv (reloj tic_ejemplo) (fecha tic_ejemplo) 42 (147 / 2)"
    by (simp add: fila_de_def lecturas_ejemplo)
  from fallo_de_lectura_fatal [of tic_ejemplo NVMLError "arranque None"]
    parejos_arranque [of None] lecturas_ejemplo
  obtain e' j where
    "iteracion tic_ejemplo (arranque None) = Inr e'"
    "archivo e' = archivo (arranque None) @
        [fila_csv (reloj tic_ejemplo) (fecha tic_ejemplo) 42 (147 / 2)]"
    "muestras e' = drop j (muestras (arranque None)) @ [(reloj tic_ejemplo, 42, 147 / 2)]"
    by blast
  then have "iteracion tic_ejemplo (arranque None) = Inr e' \<and>
      archivo e' = [cabecera, fila_de tic_ejemplo] \<and>
      muestras e' = [(1700000000123 / 1000, 42, 147 / 2)]"
    unfolding m0 a0 r f by simp
  then have "\<exists>e'. iteracion tic_ejemplo (arranque None) = Inr e' \<and>
      archivo e' = [cabecera, fila_de tic_ejemplo] \<and>
      muestras e' = [(1700000000123 / 1000, 42, 147 / 2)]" by (rule exI)
  with l i b show ?thesis by (intro conjI)
qed

end
